theory Spec2Isabelle
  imports Complex_Main "HOL-Library.Monad_Syntax" "HOL-Library.Sublist"
begin

section \<open>JavaScript numbers\<close>

text \<open>
  Every numeric field of \<^verbatim>\<open>Phaser.Time\<close> is a JavaScript number. The model keeps the
  shape of that type: a finite value, the two infinities, and NaN. Finite values are
  real numbers and arithmetic on them is exact: rounding to 64-bit floats and overflow
  are not modelled, and the two zeros of JavaScript are one value (a quotient by zero
  takes the sign of its dividend). The non-finite cases follow ECMAScript.
\<close>

datatype number = Num real | Infinity | NegInfinity | NaN

fun js_neg :: "number \<Rightarrow> number" where
  "js_neg (Num a) = Num (- a)"
| "js_neg Infinity = NegInfinity"
| "js_neg NegInfinity = Infinity"
| "js_neg NaN = NaN"

fun js_add :: "number \<Rightarrow> number \<Rightarrow> number" where
  "js_add NaN y = NaN"
| "js_add x NaN = NaN"
| "js_add (Num a) (Num b) = Num (a + b)"
| "js_add Infinity NegInfinity = NaN"
| "js_add NegInfinity Infinity = NaN"
| "js_add Infinity y = Infinity"
| "js_add x Infinity = Infinity"
| "js_add NegInfinity y = NegInfinity"
| "js_add x NegInfinity = NegInfinity"

definition js_sub :: "number \<Rightarrow> number \<Rightarrow> number" where
  "js_sub x y = js_add x (js_neg y)"

fun js_mul :: "number \<Rightarrow> number \<Rightarrow> number" where
  "js_mul NaN y = NaN"
| "js_mul x NaN = NaN"
| "js_mul (Num a) (Num b) = Num (a * b)"
| "js_mul Infinity (Num b) = (if b = 0 then NaN else if 0 < b then Infinity else NegInfinity)"
| "js_mul NegInfinity (Num b) = (if b = 0 then NaN else if 0 < b then NegInfinity else Infinity)"
| "js_mul (Num a) Infinity = (if a = 0 then NaN else if 0 < a then Infinity else NegInfinity)"
| "js_mul (Num a) NegInfinity = (if a = 0 then NaN else if 0 < a then NegInfinity else Infinity)"
| "js_mul Infinity Infinity = Infinity"
| "js_mul NegInfinity NegInfinity = Infinity"
| "js_mul Infinity NegInfinity = NegInfinity"
| "js_mul NegInfinity Infinity = NegInfinity"

fun js_div :: "number \<Rightarrow> number \<Rightarrow> number" where
  "js_div NaN y = NaN"
| "js_div x NaN = NaN"
| "js_div (Num a) (Num b) =
     (if b = 0 then (if a = 0 then NaN else if 0 < a then Infinity else NegInfinity)
      else Num (a / b))"
| "js_div (Num a) Infinity = Num 0"
| "js_div (Num a) NegInfinity = Num 0"
| "js_div Infinity (Num b) = (if 0 \<le> b then Infinity else NegInfinity)"
| "js_div NegInfinity (Num b) = (if 0 \<le> b then NegInfinity else Infinity)"
| "js_div Infinity y = NaN"
| "js_div NegInfinity y = NaN"

text \<open>The relational operators: every comparison with NaN is false.\<close>

fun js_lt :: "number \<Rightarrow> number \<Rightarrow> bool" where
  "js_lt NaN y = False"
| "js_lt x NaN = False"
| "js_lt (Num a) (Num b) = (a < b)"
| "js_lt x NegInfinity = False"
| "js_lt Infinity y = False"
| "js_lt NegInfinity y = True"
| "js_lt x Infinity = True"

definition js_gt :: "number \<Rightarrow> number \<Rightarrow> bool" where
  "js_gt x y = js_lt y x"

definition js_ge :: "number \<Rightarrow> number \<Rightarrow> bool" where
  "js_ge x y = (x \<noteq> NaN \<and> y \<noteq> NaN \<and> \<not> js_lt x y)"

text \<open>\<^verbatim>\<open>Math.floor\<close>, \<^verbatim>\<open>Math.round\<close> (halves go up), \<^verbatim>\<open>Math.max\<close>, \<^verbatim>\<open>Math.min\<close>.\<close>

fun Math_floor :: "number \<Rightarrow> number" where
  "Math_floor (Num a) = Num (of_int \<lfloor>a\<rfloor>)"
| "Math_floor x = x"

fun Math_round :: "number \<Rightarrow> number" where
  "Math_round (Num a) = Num (of_int \<lfloor>a + 1 / 2\<rfloor>)"
| "Math_round x = x"

definition Math_max :: "number \<Rightarrow> number \<Rightarrow> number" where
  "Math_max x y = (if x = NaN \<or> y = NaN then NaN else if js_lt x y then y else x)"

definition Math_min :: "number \<Rightarrow> number \<Rightarrow> number" where
  "Math_min x y = (if x = NaN \<or> y = NaN then NaN else if js_lt y x then y else x)"

section \<open>Arrays\<close>

text \<open>
  \<^verbatim>\<open>a[i]\<close> outside the array is \<^verbatim>\<open>undefined\<close>; \<^verbatim>\<open>a.splice(start, count)\<close> removes
  \<open>count\<close> elements from \<open>start\<close> on, both cut off at the end of the array.
\<close>

definition Array_get :: "'a list \<Rightarrow> nat \<Rightarrow> 'a option" where
  "Array_get xs i = (if i < length xs then Some (xs ! i) else None)"

definition Array_splice :: "nat \<Rightarrow> nat \<Rightarrow> 'a list \<Rightarrow> 'a list" where
  "Array_splice start count xs = take start xs @ drop (start + count) xs"

section \<open>The collaborators of the clock\<close>

text \<open>
  \<^verbatim>\<open>Phaser.Timer\<close> is not part of \<^verbatim>\<open>Time.js\<close>. A timer is an object on the heap, named by
  its address; its state has an arbitrary type \<open>'tm\<close> and its methods are parameters,
  each acting on the state of the receiver alone. \<open>Timer_update\<close> also returns the
  boolean the clock tests.
\<close>

type_synonym ref = nat

record 'tm Timer_methods =
  Timer_new :: "bool \<Rightarrow> 'tm"
  Timer_start :: "'tm \<Rightarrow> 'tm"
  Timer_update :: "number \<Rightarrow> 'tm \<Rightarrow> bool \<times> 'tm"
  Timer_pause :: "'tm \<Rightarrow> 'tm"
  Timer__pause :: "'tm \<Rightarrow> 'tm"
  Timer_resume :: "'tm \<Rightarrow> 'tm"
  Timer__resume :: "'tm \<Rightarrow> 'tm"
  Timer_destroy :: "'tm \<Rightarrow> 'tm"
  Timer_removeAll :: "'tm \<Rightarrow> 'tm"

text \<open>What the clock reads of \<^verbatim>\<open>this.game\<close>: \<^verbatim>\<open>game.paused\<close> and \<^verbatim>\<open>game.raf._isSetTimeOut\<close>.\<close>

record game =
  paused :: bool
  raf_isSetTimeOut :: bool

text \<open>The calls the clock makes on timers, in the order it makes them.\<close>

datatype timer_call =
    New ref bool
  | Start ref
  | Update ref number
  | Pause ref
  | Pause_internal ref
  | Resume ref
  | Resume_internal ref
  | Destroy ref
  | RemoveAll ref

fun receiver :: "timer_call \<Rightarrow> ref" where
  "receiver (New a b) = a"
| "receiver (Start a) = a"
| "receiver (Update a w) = a"
| "receiver (Pause a) = a"
| "receiver (Pause_internal a) = a"
| "receiver (Resume a) = a"
| "receiver (Resume_internal a) = a"
| "receiver (Destroy a) = a"
| "receiver (RemoveAll a) = a"

section \<open>The state of \<^verbatim>\<open>Phaser.Time\<close>\<close>

text \<open>
  The fields of the constructor, in its order; a field \<^verbatim>\<open>_x\<close> of the source is
  \<open>priv_x\<close> here. \<open>events\<close> and \<open>priv_timers\<close> hold addresses. Two more fields carry
  what lies outside the object: \<open>heap\<close>, the state of every timer object, and
  \<open>calls\<close>, the trace of the method calls made on timers so far.
\<close>

record 'tm Time =
  time :: number
  prevTime :: number
  now :: number
  elapsed :: number
  elapsedMS :: number
  physicsElapsed :: number
  physicsElapsedMS :: number
  desiredFpsMult :: number
  priv_desiredFps :: number
  suggestedFps :: number
  slowMotion :: number
  advancedTiming :: bool
  frames :: number
  updates :: number
  renders :: number
  fps :: number
  ups :: number
  rps :: number
  fpsMin :: number
  fpsMax :: number
  msMin :: number
  msMax :: number
  pauseDuration :: number
  timeToCall :: number
  timeExpected :: number
  events :: ref
  priv_frameCount :: number
  priv_elapsedAccumulator :: number
  priv_started :: number
  priv_timeLastSecond :: number
  priv_pauseStarted :: number
  priv_justResumed :: bool
  priv_timers :: "ref list"
  heap :: "ref \<Rightarrow> 'tm"
  calls :: "timer_call list"

text \<open>A method call \<open>c\<close> on the timer at address \<open>a\<close>, whose effect on that timer is \<open>f\<close>.\<close>

definition invoke :: "('tm \<Rightarrow> 'tm) \<Rightarrow> timer_call \<Rightarrow> ref \<Rightarrow> 'tm Time \<Rightarrow> 'tm Time" where
  "invoke f c a t = t\<lparr>heap := (heap t)(a := f (heap t a)), calls := calls t @ [c]\<rparr>"

text \<open>The getter of \<^verbatim>\<open>desiredFps\<close>.\<close>

definition desiredFps :: "'tm Time \<Rightarrow> number" where
  "desiredFps t = priv_desiredFps t"

text \<open>
  The constructor. \<open>h\<close> is the heap before the call and \<open>r\<close> the address at which
  \<^verbatim>\<open>new Phaser.Timer(this.game, false)\<close> places the master timer.
\<close>

definition Phaser_Time :: "'tm Timer_methods \<Rightarrow> (ref \<Rightarrow> 'tm) \<Rightarrow> ref \<Rightarrow> 'tm Time" where
  "Phaser_Time ops h r =
     \<lparr> time = Num 0,
       prevTime = Num 0,
       now = Num 0,
       elapsed = Num 0,
       elapsedMS = Num 0,
       physicsElapsed = js_div (Num 1) (Num 60),
       physicsElapsedMS = js_mul (js_div (Num 1) (Num 60)) (Num 1000),
       desiredFpsMult = js_div (Num 1) (Num 60),
       priv_desiredFps = Num 60,
       suggestedFps = Num 60,
       slowMotion = Num 1,
       advancedTiming = False,
       frames = Num 0,
       updates = Num 0,
       renders = Num 0,
       fps = Num 0,
       ups = Num 0,
       rps = Num 0,
       fpsMin = Num 1000,
       fpsMax = Num 0,
       msMin = Num 1000,
       msMax = Num 0,
       pauseDuration = Num 0,
       timeToCall = Num 0,
       timeExpected = Num 0,
       events = r,
       priv_frameCount = Num 0,
       priv_elapsedAccumulator = Num 0,
       priv_started = Num 0,
       priv_timeLastSecond = Num 0,
       priv_pauseStarted = Num 0,
       priv_justResumed = False,
       priv_timers = [],
       heap = h(r := Timer_new ops False),
       calls = [New r False] \<rparr>"

section \<open>The methods of \<^verbatim>\<open>Phaser.Time\<close>\<close>

text \<open>
  A method takes the state and returns the new state. Each value that \<^verbatim>\<open>Date.now()\<close>
  returns during a call is an argument \<open>d\<close> of the method, a finite number. A method
  that indexes the pool returns \<open>None\<close> where the source would call a method of
  \<^verbatim>\<open>undefined\<close> and raise a TypeError.
\<close>

definition boot :: "'tm Timer_methods \<Rightarrow> real \<Rightarrow> real \<Rightarrow> 'tm Time \<Rightarrow> 'tm Time" where
  "boot ops d1 d2 t =
     (let t = t\<lparr>priv_started := Num d1\<rparr>;
          t = t\<lparr>time := Num d2\<rparr>;
          t = invoke (Timer_start ops) (Start (events t)) (events t) t
      in t\<lparr>timeExpected := time t\<rparr>)"

definition add :: "ref \<Rightarrow> 'tm Time \<Rightarrow> ref \<times> 'tm Time" where
  "add timer t = (timer, t\<lparr>priv_timers := priv_timers t @ [timer]\<rparr>)"

text \<open>
  \<open>autoDestroy\<close> is \<open>None\<close> when the argument is \<^verbatim>\<open>undefined\<close>; \<open>r\<close> is the address of
  the timer that \<^verbatim>\<open>new Phaser.Timer(this.game, autoDestroy)\<close> builds.
\<close>

definition create :: "'tm Timer_methods \<Rightarrow> ref \<Rightarrow> bool option \<Rightarrow> 'tm Time \<Rightarrow> ref \<times> 'tm Time" where
  "create ops r autoDestroy t =
     (let autoDestroy = (case autoDestroy of None \<Rightarrow> True | Some b \<Rightarrow> b);
          t = t\<lparr>heap := (heap t)(r := Timer_new ops autoDestroy), calls := calls t @ [New r autoDestroy]\<rparr>;
          t = t\<lparr>priv_timers := priv_timers t @ [r]\<rparr>
      in (r, t))"

function removeAll_loop :: "'tm Timer_methods \<Rightarrow> nat \<Rightarrow> 'tm Time \<Rightarrow> 'tm Time option" where
  "removeAll_loop ops i t =
     (if i < length (priv_timers t) then
        (case Array_get (priv_timers t) i of
           None \<Rightarrow> None
         | Some a \<Rightarrow> removeAll_loop ops (i + 1) (invoke (Timer_destroy ops) (Destroy a) a t))
      else Some t)"
  by pat_completeness auto
termination
  by (relation "measure (\<lambda>(ops, i, t). length (priv_timers t) - i)") (auto simp: invoke_def)

definition removeAll :: "'tm Timer_methods \<Rightarrow> 'tm Time \<Rightarrow> 'tm Time option" where
  "removeAll ops t =
     do {
       t \<leftarrow> removeAll_loop ops 0 t;
       let t = t\<lparr>priv_timers := []\<rparr>;
       Some (invoke (Timer_removeAll ops) (RemoveAll (events t)) (events t) t)
     }"

definition refresh :: "real \<Rightarrow> 'tm Time \<Rightarrow> 'tm Time" where
  "refresh d t =
     (let previousDateNow = time t;
          t = t\<lparr>time := Num d\<rparr>
      in t\<lparr>elapsedMS := js_sub (time t) previousDateNow\<rparr>)"

text \<open>
  The loop of \<^verbatim>\<open>updateTimers\<close>, with its two local variables \<open>i\<close> and \<open>len\<close>. The timer
  keeps the state its \<^verbatim>\<open>update\<close> left, whether or not it stays in the pool.
\<close>

function updateTimers_loop :: "'tm Timer_methods \<Rightarrow> nat \<Rightarrow> nat \<Rightarrow> 'tm Time \<Rightarrow> 'tm Time option" where
  "updateTimers_loop ops i len t =
     (if i < len then
        (case Array_get (priv_timers t) i of
           None \<Rightarrow> None
         | Some a \<Rightarrow>
             (let r = Timer_update ops (time t) (heap t a);
                  t = invoke (\<lambda>tm. snd r) (Update a (time t)) a t
              in if fst r then updateTimers_loop ops (i + 1) len t
                 else updateTimers_loop ops i (len - 1)
                        (t\<lparr>priv_timers := Array_splice i 1 (priv_timers t)\<rparr>)))
      else Some t)"
  by pat_completeness auto
termination
  by (relation "measure (\<lambda>(ops, i, len, t). len - i)") auto

definition updateTimers :: "'tm Timer_methods \<Rightarrow> 'tm Time \<Rightarrow> 'tm Time option" where
  "updateTimers ops t = updateTimers_loop ops 0 (length (priv_timers t)) t"

definition updateAdvancedTiming :: "'tm Time \<Rightarrow> 'tm Time" where
  "updateAdvancedTiming t =
     (let t = t\<lparr>priv_frameCount := js_add (priv_frameCount t) (Num 1)\<rparr>;
          t = t\<lparr>priv_elapsedAccumulator := js_add (priv_elapsedAccumulator t) (elapsed t)\<rparr>;
          t = (if js_ge (priv_frameCount t) (js_mul (priv_desiredFps t) (Num 2)) then
                 (let t = t\<lparr>suggestedFps :=
                            js_mul (Math_floor (js_div (Num 200)
                              (js_div (priv_elapsedAccumulator t) (priv_frameCount t)))) (Num 5)\<rparr>;
                      t = t\<lparr>priv_frameCount := Num 0\<rparr>
                  in t\<lparr>priv_elapsedAccumulator := Num 0\<rparr>)
               else t);
          t = t\<lparr>msMin := Math_min (msMin t) (elapsed t)\<rparr>;
          t = t\<lparr>msMax := Math_max (msMax t) (elapsed t)\<rparr>;
          t = t\<lparr>frames := js_add (frames t) (Num 1)\<rparr>
      in if js_gt (now t) (js_add (priv_timeLastSecond t) (Num 1000)) then
           (let interval = js_sub (now t) (priv_timeLastSecond t);
                t = t\<lparr>fps := Math_round (js_div (js_mul (frames t) (Num 1000)) interval)\<rparr>;
                t = t\<lparr>ups := Math_round (js_div (js_mul (updates t) (Num 1000)) interval)\<rparr>;
                t = t\<lparr>rps := Math_round (js_div (js_mul (renders t) (Num 1000)) interval)\<rparr>;
                t = t\<lparr>fpsMin := Math_min (fpsMin t) (fps t)\<rparr>;
                t = t\<lparr>fpsMax := Math_max (fpsMax t) (fps t)\<rparr>;
                t = t\<lparr>priv_timeLastSecond := now t\<rparr>;
                t = t\<lparr>frames := Num 0\<rparr>;
                t = t\<lparr>updates := Num 0\<rparr>
            in t\<lparr>renders := Num 0\<rparr>)
         else t)"

text \<open>
  \<^verbatim>\<open>update(time)\<close>: \<open>g\<close> is the state of \<^verbatim>\<open>this.game\<close> during the call, \<open>d\<close> the value of
  \<^verbatim>\<open>Date.now()\<close>, \<open>time'\<close> the argument.
\<close>

definition update :: "'tm Timer_methods \<Rightarrow> game \<Rightarrow> real \<Rightarrow> number \<Rightarrow> 'tm Time \<Rightarrow> 'tm Time option" where
  "update ops g d time' t =
     (let previousDateNow = time t;
          t = t\<lparr>time := Num d\<rparr>;
          t = t\<lparr>elapsedMS := js_sub (time t) previousDateNow\<rparr>;
          t = t\<lparr>prevTime := now t\<rparr>;
          t = t\<lparr>now := time'\<rparr>;
          t = t\<lparr>elapsed := js_sub (now t) (prevTime t)\<rparr>;
          t = (if raf_isSetTimeOut g then
                 (let t = t\<lparr>timeToCall :=
                            Math_floor (Math_max (Num 0)
                              (js_sub (js_div (Num 1000) (priv_desiredFps t))
                                      (js_sub (timeExpected t) time')))\<rparr>
                  in t\<lparr>timeExpected := js_add time' (timeToCall t)\<rparr>)
               else t);
          t = (if advancedTiming t then updateAdvancedTiming t else t)
      in if \<not> paused g then
           (let t = invoke (\<lambda>tm. snd (Timer_update ops (time t) tm))
                      (Update (events t) (time t)) (events t) t
            in if length (priv_timers t) \<noteq> 0 then updateTimers ops t else Some t)
         else Some t)"

definition countUpdate :: "'tm Time \<Rightarrow> 'tm Time" where
  "countUpdate t = (if advancedTiming t then t\<lparr>updates := js_add (updates t) (Num 1)\<rparr> else t)"

definition countRender :: "'tm Time \<Rightarrow> 'tm Time" where
  "countRender t = (if advancedTiming t then t\<lparr>renders := js_add (renders t) (Num 1)\<rparr> else t)"

text \<open>
  The two loops \<^verbatim>\<open>while (i--)\<close>: the test reads \<open>i\<close>, then \<open>i\<close> drops by one, and the
  body runs with the new \<open>i\<close>.
\<close>

fun gamePaused_loop :: "'tm Timer_methods \<Rightarrow> nat \<Rightarrow> 'tm Time \<Rightarrow> 'tm Time option" where
  "gamePaused_loop ops 0 t = Some t"
| "gamePaused_loop ops (Suc i) t =
     (case Array_get (priv_timers t) i of
        None \<Rightarrow> None
      | Some a \<Rightarrow> gamePaused_loop ops i (invoke (Timer__pause ops) (Pause_internal a) a t))"

definition gamePaused :: "'tm Timer_methods \<Rightarrow> real \<Rightarrow> 'tm Time \<Rightarrow> 'tm Time option" where
  "gamePaused ops d t =
     (let t = t\<lparr>priv_pauseStarted := Num d\<rparr>;
          t = invoke (Timer_pause ops) (Pause (events t)) (events t) t
      in gamePaused_loop ops (length (priv_timers t)) t)"

fun gameResumed_loop :: "'tm Timer_methods \<Rightarrow> nat \<Rightarrow> 'tm Time \<Rightarrow> 'tm Time option" where
  "gameResumed_loop ops 0 t = Some t"
| "gameResumed_loop ops (Suc i) t =
     (case Array_get (priv_timers t) i of
        None \<Rightarrow> None
      | Some a \<Rightarrow> gameResumed_loop ops i (invoke (Timer__resume ops) (Resume_internal a) a t))"

definition gameResumed :: "'tm Timer_methods \<Rightarrow> real \<Rightarrow> 'tm Time \<Rightarrow> 'tm Time option" where
  "gameResumed ops d t =
     (let t = t\<lparr>time := Num d\<rparr>;
          t = t\<lparr>pauseDuration := js_sub (time t) (priv_pauseStarted t)\<rparr>;
          t = invoke (Timer_resume ops) (Resume (events t)) (events t) t
      in gameResumed_loop ops (length (priv_timers t)) t)"

definition totalElapsedSeconds :: "'tm Time \<Rightarrow> number" where
  "totalElapsedSeconds t = js_mul (js_sub (time t) (priv_started t)) (Num (1 / 1000))"

definition elapsedSince :: "number \<Rightarrow> 'tm Time \<Rightarrow> number" where
  "elapsedSince since t = js_sub (time t) since"

definition elapsedSecondsSince :: "number \<Rightarrow> 'tm Time \<Rightarrow> number" where
  "elapsedSecondsSince since t = js_mul (js_sub (time t) since) (Num (1 / 1000))"

definition reset :: "'tm Timer_methods \<Rightarrow> 'tm Time \<Rightarrow> 'tm Time option" where
  "reset ops t = (let t = t\<lparr>priv_started := time t\<rparr> in removeAll ops t)"

text \<open>The setter of \<^verbatim>\<open>desiredFps\<close>.\<close>

definition set_desiredFps :: "number \<Rightarrow> 'tm Time \<Rightarrow> 'tm Time" where
  "set_desiredFps v t =
     (let t = t\<lparr>priv_desiredFps := v\<rparr>;
          t = t\<lparr>physicsElapsed := js_div (Num 1) v\<rparr>;
          t = t\<lparr>physicsElapsedMS := js_mul (physicsElapsed t) (Num 1000)\<rparr>
      in t\<lparr>desiredFpsMult := js_div (Num 1) v\<rparr>)"

section \<open>Sequences of operations\<close>

text \<open>
  What a client can do with the clock: call a method, assign \<^verbatim>\<open>desiredFps\<close>, or assign
  one of the two fields that the documentation tells it to set, \<^verbatim>\<open>advancedTiming\<close> and
  \<^verbatim>\<open>slowMotion\<close>.
\<close>

datatype operation =
    Op_boot real real
  | Op_add ref
  | Op_create ref "bool option"
  | Op_removeAll
  | Op_refresh real
  | Op_update game real number
  | Op_countUpdate
  | Op_countRender
  | Op_gamePaused real
  | Op_gameResumed real
  | Op_reset
  | Op_set_desiredFps number
  | Op_set_advancedTiming bool
  | Op_set_slowMotion number

fun perform :: "'tm Timer_methods \<Rightarrow> operation \<Rightarrow> 'tm Time \<Rightarrow> 'tm Time option" where
  "perform ops (Op_boot d1 d2) t = Some (boot ops d1 d2 t)"
| "perform ops (Op_add timer) t = Some (snd (add timer t))"
| "perform ops (Op_create r autoDestroy) t = Some (snd (create ops r autoDestroy t))"
| "perform ops Op_removeAll t = removeAll ops t"
| "perform ops (Op_refresh d) t = Some (refresh d t)"
| "perform ops (Op_update g d time') t = update ops g d time' t"
| "perform ops Op_countUpdate t = Some (countUpdate t)"
| "perform ops Op_countRender t = Some (countRender t)"
| "perform ops (Op_gamePaused d) t = gamePaused ops d t"
| "perform ops (Op_gameResumed d) t = gameResumed ops d t"
| "perform ops Op_reset t = reset ops t"
| "perform ops (Op_set_desiredFps v) t = Some (set_desiredFps v t)"
| "perform ops (Op_set_advancedTiming b) t = Some (t\<lparr>advancedTiming := b\<rparr>)"
| "perform ops (Op_set_slowMotion v) t = Some (t\<lparr>slowMotion := v\<rparr>)"

fun perform_all :: "'tm Timer_methods \<Rightarrow> operation list \<Rightarrow> 'tm Time \<Rightarrow> 'tm Time option" where
  "perform_all ops [] t = Some t"
| "perform_all ops (op # os) t =
     (case perform ops op t of None \<Rightarrow> None | Some t' \<Rightarrow> perform_all ops os t')"

fun is_gamePaused :: "operation \<Rightarrow> bool" where
  "is_gamePaused (Op_gamePaused d) = True"
| "is_gamePaused op = False"

text \<open>An assignment to \<^verbatim>\<open>desiredFps\<close> is within the contract when the value is positive.\<close>

fun sets_positive_rate :: "operation \<Rightarrow> bool" where
  "sets_positive_rate (Op_set_desiredFps v) = js_gt v (Num 0)"
| "sets_positive_rate op = True"

text \<open>The operator \<^verbatim>\<open>==\<close> on two numbers: NaN equals nothing.\<close>

definition js_eq :: "number \<Rightarrow> number \<Rightarrow> bool" where
  "js_eq x y = (x \<noteq> NaN \<and> y \<noteq> NaN \<and> x = y)"

text \<open>
  \<open>n\<close> calls of \<^verbatim>\<open>update\<close> whose arguments rise in steps of \<open>E\<close> from \<open>x0\<close>: call number
  \<open>k\<close> (from 0) passes \<open>x0 + (k + 1) * E\<close>, on the game state \<open>gs k\<close> and with the wall
  clock at \<open>ds k\<close>.
\<close>

definition steady_frames :: "(nat \<Rightarrow> game) \<Rightarrow> (nat \<Rightarrow> real) \<Rightarrow> real \<Rightarrow> real \<Rightarrow> nat \<Rightarrow> operation list" where
  "steady_frames gs ds x0 E n =
     map (\<lambda>k. Op_update (gs k) (ds k) (Num (x0 + real (Suc k) * E))) [0..<n]"

section \<open>Auxiliary functions of the proofs\<close>

text \<open>The same method called on each timer of a list, from left to right.\<close>

definition invoke_all :: "('tm \<Rightarrow> 'tm) \<Rightarrow> (ref \<Rightarrow> timer_call) \<Rightarrow> ref list \<Rightarrow> 'tm Time \<Rightarrow> 'tm Time" where
  "invoke_all f mk as t = fold (\<lambda>a. invoke f (mk a) a) as t"

text \<open>
  One pass over a list of timers at wall time \<open>w\<close>: the timers that ask to stay, in
  their order, and the heap after all the calls. It is the loop of \<^verbatim>\<open>updateTimers\<close>
  without its indices, and \<open>updateTimers_loop_eq\<close> below proves that the loop computes it.
\<close>

fun sweep :: "'tm Timer_methods \<Rightarrow> number \<Rightarrow> ref list \<Rightarrow> (ref \<Rightarrow> 'tm) \<Rightarrow> ref list \<times> (ref \<Rightarrow> 'tm)" where
  "sweep ops w [] h = ([], h)"
| "sweep ops w (a # as) h =
     (let r = Timer_update ops w (h a);
          p = sweep ops w as (h(a := snd r))
      in (if fst r then a # fst p else fst p, snd p))"

text \<open>
  \<^verbatim>\<open>update\<close> in two parts: the statements before the test of \<^verbatim>\<open>game.paused\<close>, and the
  body of that test. \<open>update_eq\<close> below proves that \<open>update\<close> is their composition.
\<close>

definition update_clock :: "game \<Rightarrow> real \<Rightarrow> number \<Rightarrow> 'tm Time \<Rightarrow> 'tm Time" where
  "update_clock g d time' t =
     (let previousDateNow = time t;
          t = t\<lparr>time := Num d\<rparr>;
          t = t\<lparr>elapsedMS := js_sub (time t) previousDateNow\<rparr>;
          t = t\<lparr>prevTime := now t\<rparr>;
          t = t\<lparr>now := time'\<rparr>;
          t = t\<lparr>elapsed := js_sub (now t) (prevTime t)\<rparr>;
          t = (if raf_isSetTimeOut g then
                 (let t = t\<lparr>timeToCall :=
                            Math_floor (Math_max (Num 0)
                              (js_sub (js_div (Num 1000) (priv_desiredFps t))
                                      (js_sub (timeExpected t) time')))\<rparr>
                  in t\<lparr>timeExpected := js_add time' (timeToCall t)\<rparr>)
               else t)
      in if advancedTiming t then updateAdvancedTiming t else t)"

definition update_timers :: "'tm Timer_methods \<Rightarrow> 'tm Time \<Rightarrow> 'tm Time" where
  "update_timers ops t =
     (let h = (heap t)(events t := snd (Timer_update ops (time t) (heap t (events t))))
      in t\<lparr>priv_timers := fst (sweep ops (time t) (priv_timers t) h),
           heap := snd (sweep ops (time t) (priv_timers t) h),
           calls := calls t @ Update (events t) (time t) # map (\<lambda>a. Update a (time t)) (priv_timers t)\<rparr>)"

section \<open>A timer for the worked scenarios\<close>

text \<open>
  The state of a \<open>countdown\<close> timer is the number of updates it still has to see: the
  update that brings it to zero returns \<^verbatim>\<open>false\<close>. Its other methods leave it as it is.
\<close>

definition countdown :: "nat Timer_methods" where
  "countdown =
     \<lparr> Timer_new = (\<lambda>autoDestroy. 0),
       Timer_start = (\<lambda>n. n),
       Timer_update = (\<lambda>w n. (1 < n, n - 1)),
       Timer_pause = (\<lambda>n. n),
       Timer__pause = (\<lambda>n. n),
       Timer_resume = (\<lambda>n. n),
       Timer__resume = (\<lambda>n. n),
       Timer_destroy = (\<lambda>n. n),
       Timer_removeAll = (\<lambda>n. n) \<rparr>"

text \<open>A heap in which the timer at address 2 has three updates left and every other timer nine.\<close>

definition three_updates_left :: "ref \<Rightarrow> nat" where
  "three_updates_left a = (if a = 2 then 3 else 9)"

text \<open>
  A clock built with its master timer at address 0, booted at wall time 1000, to which
  the timers at addresses 1, 2 and 3 were added in this order.
\<close>

definition pool_of_three :: "nat Time" where
  "pool_of_three =
     snd (add 3 (snd (add 2 (snd (add 1
       (boot countdown 1000 1000 (Phaser_Time countdown three_updates_left 0)))))))"

definition running :: game where
  "running = \<lparr>paused = False, raf_isSetTimeOut = False\<rparr>"

definition running_on_setTimeout :: game where
  "running_on_setTimeout = \<lparr>paused = False, raf_isSetTimeOut = True\<rparr>"

definition game_paused :: game where
  "game_paused = \<lparr>paused = True, raf_isSetTimeOut = False\<rparr>"

section \<open>Calls on timers\<close>

declare updateTimers_loop.simps [simp del]
declare removeAll_loop.simps [simp del]

lemma invoke_simps [simp]:
  "heap (invoke f c a t) = (heap t)(a := f (heap t a))"
  "calls (invoke f c a t) = calls t @ [c]"
  "priv_timers (invoke f c a t) = priv_timers t"
  "events (invoke f c a t) = events t"
  "time (invoke f c a t) = time t"
  by (simp_all add: invoke_def)

lemma invoke_all_Nil [simp]: "invoke_all f mk [] t = t"
  by (simp add: invoke_all_def)

lemma invoke_all_Cons [simp]:
  "invoke_all f mk (a # as) t = invoke_all f mk as (invoke f (mk a) a t)"
  by (simp add: invoke_all_def)

lemma invoke_all_append [simp]:
  "invoke_all f mk (as @ bs) t = invoke_all f mk bs (invoke_all f mk as t)"
  by (simp add: invoke_all_def)

lemma invoke_all_eq:
  "invoke_all f mk as t =
     t\<lparr>heap := fold (\<lambda>a h. h(a := f (h a))) as (heap t), calls := calls t @ map mk as\<rparr>"
  by (induction as arbitrary: t) (simp_all add: invoke_def)

lemma fold_upd_notin:
  "a \<notin> set as \<Longrightarrow> fold (\<lambda>a h. h(a := f (h a))) as h a = h a"
  by (induction as arbitrary: h) auto

lemma fold_upd_in:
  "distinct as \<Longrightarrow> a \<in> set as \<Longrightarrow> fold (\<lambda>a h. h(a := f (h a))) as h a = f (h a)"
  by (induction as arbitrary: h) (auto simp: fold_upd_notin)

lemma filter_receiver_map:
  "(\<And>b. receiver (mk b) = b) \<Longrightarrow> distinct as \<Longrightarrow> a \<in> set as \<Longrightarrow>
   filter (\<lambda>c. receiver c = a) (map mk as) = [mk a]"
  by (induction as) (auto simp: filter_empty_conv)

section \<open>Pause and resume\<close>

text \<open>Both loops run down from the length of the pool, so no index leaves the pool.\<close>

lemma gamePaused_loop_eq:
  "i \<le> length (priv_timers t) \<Longrightarrow>
   gamePaused_loop ops i t =
     Some (invoke_all (Timer__pause ops) Pause_internal (rev (take i (priv_timers t))) t)"
proof (induction i arbitrary: t)
  case 0
  then show ?case by simp
next
  case (Suc i)
  then show ?case
    by (simp add: Array_get_def take_Suc_conv_app_nth)
qed

lemma gameResumed_loop_eq:
  "i \<le> length (priv_timers t) \<Longrightarrow>
   gameResumed_loop ops i t =
     Some (invoke_all (Timer__resume ops) Resume_internal (rev (take i (priv_timers t))) t)"
proof (induction i arbitrary: t)
  case 0
  then show ?case by simp
next
  case (Suc i)
  then show ?case
    by (simp add: Array_get_def take_Suc_conv_app_nth)
qed

lemma gamePaused_eq:
  "gamePaused ops d t =
     Some (invoke_all (Timer__pause ops) Pause_internal (rev (priv_timers t))
            (invoke (Timer_pause ops) (Pause (events t)) (events t)
               (t\<lparr>priv_pauseStarted := Num d\<rparr>)))"
  by (simp add: gamePaused_def Let_def gamePaused_loop_eq)

lemma gameResumed_eq:
  "gameResumed ops d t =
     Some (invoke_all (Timer__resume ops) Resume_internal (rev (priv_timers t))
            (invoke (Timer_resume ops) (Resume (events t)) (events t)
               (t\<lparr>time := Num d, pauseDuration := js_sub (Num d) (priv_pauseStarted t)\<rparr>)))"
  by (simp add: gameResumed_def Let_def gameResumed_loop_eq)

lemma pool_of_three_fields:
  "priv_timers pool_of_three = [1, 2, 3]"
  "events pool_of_three = 0"
  "time pool_of_three = Num 1000"
  "now pool_of_three = Num 0"
  "timeExpected pool_of_three = Num 1000"
  "priv_desiredFps pool_of_three = Num 60"
  "advancedTiming pool_of_three = False"
  "priv_frameCount pool_of_three = Num 0"
  "priv_elapsedAccumulator pool_of_three = Num 0"
  "calls pool_of_three = [New 0 False, Start 0]"
  "heap pool_of_three = three_updates_left(0 := 0)"
  by (simp_all add: pool_of_three_def add_def boot_def Phaser_Time_def Let_def invoke_def
        countdown_def)

text \<open>
  Claim C1, as the code has it. \<^verbatim>\<open>gamePaused()\<close> stores the value that \<^verbatim>\<open>Date.now()\<close>
  returns during the call in \<^verbatim>\<open>_pauseStarted\<close> and leaves the field \<^verbatim>\<open>time\<close> as it
  was; it calls \<^verbatim>\<open>pause\<close> on the master timer and then \<^verbatim>\<open>_pause\<close> on every timer of the
  pool, from the last to the first. A following \<^verbatim>\<open>gameResumed()\<close>, \<open>D\<close> milliseconds of
  wall clock later, sets \<^verbatim>\<open>time\<close> to the new sample and \<^verbatim>\<open>pauseDuration\<close> to
  \<^verbatim>\<open>time - _pauseStarted\<close>, which is exactly \<open>D\<close>, and calls \<^verbatim>\<open>resume\<close> on the master
  timer and \<^verbatim>\<open>_resume\<close> on every timer of the pool, again from the last to the first.
  When the pool holds distinct timers and not the master timer, the calls that a pooled
  timer receives during the two operations are one \<^verbatim>\<open>_pause\<close> followed by one
  \<^verbatim>\<open>_resume\<close>, with no \<^verbatim>\<open>update\<close> in between.
\<close>

theorem gamePaused_gameResumed_round_trip:
  "\<exists>t1 t2. gamePaused ops d t = Some t1 \<and> gameResumed ops (d + D) t1 = Some t2
     \<and> priv_pauseStarted t1 = Num d \<and> time t1 = time t
     \<and> calls t1 = calls t @ Pause (events t) # map Pause_internal (rev (priv_timers t))
     \<and> time t2 = Num (d + D)
     \<and> pauseDuration t2 = js_sub (time t2) (priv_pauseStarted t1)
     \<and> pauseDuration t2 = Num D
     \<and> calls t2 = calls t1 @ Resume (events t) # map Resume_internal (rev (priv_timers t))
     \<and> priv_timers t2 = priv_timers t
     \<and> (distinct (priv_timers t) \<and> events t \<notin> set (priv_timers t) \<longrightarrow>
          (\<forall>a \<in> set (priv_timers t).
             filter (\<lambda>c. receiver c = a) (drop (length (calls t)) (calls t2))
               = [Pause_internal a, Resume_internal a]
           \<and> heap t2 a = Timer__resume ops (Timer__pause ops (heap t a))))"
  apply (simp add: gamePaused_eq gameResumed_eq invoke_all_eq invoke_def js_sub_def)
  apply (auto simp: filter_receiver_map fold_upd_in fold_upd_notin)
  done

theorem gamePaused_gameResumed_round_trip_witness:
  "distinct (priv_timers pool_of_three) \<and> events pool_of_three \<notin> set (priv_timers pool_of_three)
   \<and> 2 \<in> set (priv_timers pool_of_three)
   \<and> (\<exists>t1 t2. gamePaused countdown 2000 pool_of_three = Some t1
         \<and> gameResumed countdown 2500 t1 = Some t2
         \<and> priv_pauseStarted t1 = Num 2000 \<and> time t1 = Num 1000
         \<and> time t2 = Num 2500 \<and> pauseDuration t2 = Num 500
         \<and> drop (length (calls pool_of_three)) (calls t2) =
             [Pause 0, Pause_internal 3, Pause_internal 2, Pause_internal 1,
              Resume 0, Resume_internal 3, Resume_internal 2, Resume_internal 1]
         \<and> filter (\<lambda>c. receiver c = 2) (drop (length (calls pool_of_three)) (calls t2))
             = [Pause_internal 2, Resume_internal 2])"
  using gamePaused_gameResumed_round_trip [of countdown 2000 pool_of_three 500]
  by (auto simp: pool_of_three_fields)

text \<open>
  The claim as the specification words it fails: on a clock booted at wall time 1000 and
  paused at wall time 2000, \<^verbatim>\<open>_pauseStarted\<close> is 2000 and the field \<^verbatim>\<open>time\<close> is still 1000.
\<close>

theorem gamePaused_pauseStarted_counterexample:
  "gamePaused countdown 2000 pool_of_three \<noteq> None
   \<and> priv_pauseStarted (the (gamePaused countdown 2000 pool_of_three)) = Num 2000
   \<and> time (the (gamePaused countdown 2000 pool_of_three)) = Num 1000
   \<and> priv_pauseStarted (the (gamePaused countdown 2000 pool_of_three))
       \<noteq> time (the (gamePaused countdown 2000 pool_of_three))"
  by (simp add: gamePaused_eq invoke_all_eq invoke_def pool_of_three_fields)

section \<open>The pass over the pool\<close>

lemma sweep_subseq: "subseq (fst (sweep ops w as h)) as"
  by (induction as arbitrary: h) (auto simp: Let_def)

lemma sweep_heap_notin: "a \<notin> set as \<Longrightarrow> snd (sweep ops w as h) a = h a"
  by (induction as arbitrary: h) (auto simp: Let_def)

lemma sweep_distinct:
  "distinct as \<Longrightarrow>
   fst (sweep ops w as h) = filter (\<lambda>a. fst (Timer_update ops w (h a))) as"
proof (induction as arbitrary: h)
  case Nil
  show ?case by simp
next
  case (Cons a as)
  have "fst (sweep ops w as (h(a := snd (Timer_update ops w (h a)))))
      = filter (\<lambda>b. fst (Timer_update ops w ((h(a := snd (Timer_update ops w (h a)))) b))) as"
    using Cons.prems by (intro Cons.IH) simp
  also have "\<dots> = filter (\<lambda>b. fst (Timer_update ops w (h b))) as"
    using Cons.prems by (intro filter_cong) auto
  finally show ?case by (simp add: Let_def)
qed

lemma sweep_heap_in:
  "distinct as \<Longrightarrow> a \<in> set as \<Longrightarrow> snd (sweep ops w as h) a = snd (Timer_update ops w (h a))"
  by (induction as arbitrary: h) (auto simp: Let_def sweep_heap_notin)

text \<open>
  The loop with its indices against the pass without: with \<open>len\<close> the length of the
  pool and \<open>i\<close> within it, the loop keeps the first \<open>i\<close> timers and sweeps the rest.
  The index stays inside the pool, so the loop never reads \<^verbatim>\<open>undefined\<close>.
\<close>

lemma updateTimers_loop_eq:
  "len = length (priv_timers t) \<Longrightarrow> i \<le> len \<Longrightarrow>
   updateTimers_loop ops i len t =
     Some (t\<lparr>priv_timers := take i (priv_timers t) @ fst (sweep ops (time t) (drop i (priv_timers t)) (heap t)),
             heap := snd (sweep ops (time t) (drop i (priv_timers t)) (heap t)),
             calls := calls t @ map (\<lambda>a. Update a (time t)) (drop i (priv_timers t))\<rparr>)"
proof (induction ops i len t rule: updateTimers_loop.induct)
  case (1 ops i len t)
  show ?case
  proof (cases "i < len")
    case False
    with 1(3,4) show ?thesis by (subst updateTimers_loop.simps) simp
  next
    case True
    let ?a = "priv_timers t ! i"
    let ?r = "Timer_update ops (time t) (heap t ?a)"
    let ?t1 = "invoke (\<lambda>tm. snd ?r) (Update ?a (time t)) ?a t"
    have get: "Array_get (priv_timers t) i = Some ?a"
      using True 1(3) by (simp add: Array_get_def)
    have dr: "drop i (priv_timers t) = ?a # drop (Suc i) (priv_timers t)"
      using True 1(3) by (simp add: Cons_nth_drop_Suc)
    show ?thesis
    proof (cases "fst ?r")
      case stay: True
      have "updateTimers_loop ops i len t = updateTimers_loop ops (i + 1) len ?t1"
        using True get stay by (subst updateTimers_loop.simps) (simp add: Let_def)
      also have "\<dots> = Some (?t1\<lparr>priv_timers := take (i + 1) (priv_timers ?t1) @ fst (sweep ops (time ?t1) (drop (i + 1) (priv_timers ?t1)) (heap ?t1)),
             heap := snd (sweep ops (time ?t1) (drop (i + 1) (priv_timers ?t1)) (heap ?t1)),
             calls := calls ?t1 @ map (\<lambda>a. Update a (time ?t1)) (drop (i + 1) (priv_timers ?t1))\<rparr>)"
        using True 1(3) stay by (intro 1(1)[OF True get refl refl]) simp_all
      also have "\<dots> = Some (t\<lparr>priv_timers := take i (priv_timers t) @ fst (sweep ops (time t) (drop i (priv_timers t)) (heap t)),
             heap := snd (sweep ops (time t) (drop i (priv_timers t)) (heap t)),
             calls := calls t @ map (\<lambda>a. Update a (time t)) (drop i (priv_timers t))\<rparr>)"
        using True 1(3) stay by (simp add: dr Let_def invoke_def take_Suc_conv_app_nth)
      finally show ?thesis .
    next
      case leave: False
      let ?t2 = "?t1\<lparr>priv_timers := Array_splice i 1 (priv_timers ?t1)\<rparr>"
      have sp: "Array_splice i (Suc 0) (priv_timers t) = take i (priv_timers t) @ drop (Suc i) (priv_timers t)"
        by (simp add: Array_splice_def)
      have "updateTimers_loop ops i len t = updateTimers_loop ops i (len - 1) ?t2"
        using True get leave by (subst updateTimers_loop.simps) (simp add: Let_def)
      also have "\<dots> = Some (?t2\<lparr>priv_timers := take i (priv_timers ?t2) @ fst (sweep ops (time ?t2) (drop i (priv_timers ?t2)) (heap ?t2)),
             heap := snd (sweep ops (time ?t2) (drop i (priv_timers ?t2)) (heap ?t2)),
             calls := calls ?t2 @ map (\<lambda>a. Update a (time ?t2)) (drop i (priv_timers ?t2))\<rparr>)"
        using True 1(3) leave by (intro 1(2)[OF True get refl refl]) (simp_all add: sp)
      also have "\<dots> = Some (t\<lparr>priv_timers := take i (priv_timers t) @ fst (sweep ops (time t) (drop i (priv_timers t)) (heap t)),
             heap := snd (sweep ops (time t) (drop i (priv_timers t)) (heap t)),
             calls := calls t @ map (\<lambda>a. Update a (time t)) (drop i (priv_timers t))\<rparr>)"
        using True 1(3) leave by (simp add: dr Let_def invoke_def sp)
      finally show ?thesis .
    qed
  qed
qed

lemma updateTimers_eq:
  "updateTimers ops t =
     Some (t\<lparr>priv_timers := fst (sweep ops (time t) (priv_timers t) (heap t)),
             heap := snd (sweep ops (time t) (priv_timers t) (heap t)),
             calls := calls t @ map (\<lambda>a. Update a (time t)) (priv_timers t)\<rparr>)"
  by (simp add: updateTimers_def updateTimers_loop_eq)

section \<open>The frame update\<close>

lemma update_eq:
  "update ops g d x t =
     Some (if paused g then update_clock g d x t else update_timers ops (update_clock g d x t))"
  unfolding update_def update_clock_def update_timers_def
  by (simp add: Let_def updateTimers_eq invoke_def)

lemma Math_floor_max_0: "Math_floor (Math_max (Num 0) x) = Math_max (Num 0) (Math_floor x)"
proof (cases x)
  case (Num a)
  have "0 < a \<Longrightarrow> \<not> 0 < \<lfloor>a\<rfloor> \<Longrightarrow> \<lfloor>a\<rfloor> = 0" by linarith
  moreover have "\<not> 0 < a \<Longrightarrow> \<not> 0 < \<lfloor>a\<rfloor>" by linarith
  ultimately show ?thesis using Num by (auto simp: Math_max_def)
qed (simp_all add: Math_max_def)

text \<open>What the statistics step leaves alone.\<close>

lemma updateAdvancedTiming_fields [simp]:
  "time (updateAdvancedTiming t) = time t"
  "elapsedMS (updateAdvancedTiming t) = elapsedMS t"
  "now (updateAdvancedTiming t) = now t"
  "prevTime (updateAdvancedTiming t) = prevTime t"
  "elapsed (updateAdvancedTiming t) = elapsed t"
  "timeToCall (updateAdvancedTiming t) = timeToCall t"
  "timeExpected (updateAdvancedTiming t) = timeExpected t"
  "priv_timers (updateAdvancedTiming t) = priv_timers t"
  "heap (updateAdvancedTiming t) = heap t"
  "calls (updateAdvancedTiming t) = calls t"
  "events (updateAdvancedTiming t) = events t"
  "advancedTiming (updateAdvancedTiming t) = advancedTiming t"
  "priv_desiredFps (updateAdvancedTiming t) = priv_desiredFps t"
  "physicsElapsed (updateAdvancedTiming t) = physicsElapsed t"
  "physicsElapsedMS (updateAdvancedTiming t) = physicsElapsedMS t"
  "priv_pauseStarted (updateAdvancedTiming t) = priv_pauseStarted t"
  by (simp_all add: updateAdvancedTiming_def Let_def)

lemma update_clock_fields:
  "time (update_clock g d x t) = Num d"
  "elapsedMS (update_clock g d x t) = js_sub (Num d) (time t)"
  "now (update_clock g d x t) = x"
  "prevTime (update_clock g d x t) = now t"
  "elapsed (update_clock g d x t) = js_sub x (now t)"
  "priv_timers (update_clock g d x t) = priv_timers t"
  "heap (update_clock g d x t) = heap t"
  "calls (update_clock g d x t) = calls t"
  "events (update_clock g d x t) = events t"
  "advancedTiming (update_clock g d x t) = advancedTiming t"
  "priv_desiredFps (update_clock g d x t) = priv_desiredFps t"
  "physicsElapsed (update_clock g d x t) = physicsElapsed t"
  "physicsElapsedMS (update_clock g d x t) = physicsElapsedMS t"
  "priv_pauseStarted (update_clock g d x t) = priv_pauseStarted t"
  by (simp_all add: update_clock_def Let_def)

lemma update_clock_cadence:
  "timeToCall (update_clock g d x t) =
     (if raf_isSetTimeOut g
      then Math_floor (Math_max (Num 0)
             (js_sub (js_div (Num 1000) (priv_desiredFps t)) (js_sub (timeExpected t) x)))
      else timeToCall t)"
  "timeExpected (update_clock g d x t) =
     (if raf_isSetTimeOut g
      then js_add x (Math_floor (Math_max (Num 0)
             (js_sub (js_div (Num 1000) (priv_desiredFps t)) (js_sub (timeExpected t) x))))
      else timeExpected t)"
  by (simp_all add: update_clock_def Let_def)

lemma update_timers_fields:
  "time (update_timers ops t) = time t"
  "elapsedMS (update_timers ops t) = elapsedMS t"
  "now (update_timers ops t) = now t"
  "prevTime (update_timers ops t) = prevTime t"
  "elapsed (update_timers ops t) = elapsed t"
  "timeToCall (update_timers ops t) = timeToCall t"
  "timeExpected (update_timers ops t) = timeExpected t"
  "events (update_timers ops t) = events t"
  "advancedTiming (update_timers ops t) = advancedTiming t"
  "priv_desiredFps (update_timers ops t) = priv_desiredFps t"
  "physicsElapsed (update_timers ops t) = physicsElapsed t"
  "physicsElapsedMS (update_timers ops t) = physicsElapsedMS t"
  "priv_pauseStarted (update_timers ops t) = priv_pauseStarted t"
  "suggestedFps (update_timers ops t) = suggestedFps t"
  "priv_frameCount (update_timers ops t) = priv_frameCount t"
  "priv_elapsedAccumulator (update_timers ops t) = priv_elapsedAccumulator t"
  by (simp_all add: update_timers_def Let_def)

text \<open>
  Claim C2. Every \<^verbatim>\<open>update(now)\<close> returns. When the scheduler runs on
  \<^verbatim>\<open>setTimeout\<close> (\<^verbatim>\<open>game.raf._isSetTimeOut\<close>), it sets \<^verbatim>\<open>timeToCall\<close> to
  \<open>max(0, floor(1000 / desiredFps - (timeExpected - now)))\<close>, with the old
  \<^verbatim>\<open>timeExpected\<close>, and then \<^verbatim>\<open>timeExpected\<close> to \<open>now + timeToCall\<close>; otherwise it leaves
  both fields as they were.
\<close>

theorem update_fallback_cadence:
  "\<exists>t'. update ops g d x t = Some t'
     \<and> timeToCall t' =
         (if raf_isSetTimeOut g
          then Math_max (Num 0) (Math_floor
                 (js_sub (js_div (Num 1000) (desiredFps t)) (js_sub (timeExpected t) x)))
          else timeToCall t)
     \<and> timeExpected t' =
         (if raf_isSetTimeOut g then js_add x (timeToCall t') else timeExpected t)"
  by (simp add: update_eq update_clock_cadence update_timers_fields Math_floor_max_0 desiredFps_def)

theorem update_fallback_cadence_witness:
  "raf_isSetTimeOut running_on_setTimeout
   \<and> (\<exists>t'. update countdown running_on_setTimeout 1016 (Num 1010) pool_of_three = Some t'
         \<and> timeToCall t' = Num 26 \<and> timeExpected t' = Num 1036)"
proof -
  have "js_sub (js_div (Num 1000) (Num 60)) (js_sub (Num 1000) (Num 1010)) = Num (80 / 3)"
    by (simp add: js_sub_def)
  moreover have "\<lfloor>80 / 3 :: real\<rfloor> = 26"
    by (simp add: floor_eq_iff)
  ultimately show ?thesis
    using update_fallback_cadence [of countdown running_on_setTimeout 1016 "Num 1010" pool_of_three]
    by (auto simp: pool_of_three_fields desiredFps_def running_on_setTimeout_def Math_max_def)
qed

text \<open>
  Claim C5. On a clock that was built and booted, \<^verbatim>\<open>now\<close> is 0, and the calls
  \<^verbatim>\<open>update(0)\<close>, \<^verbatim>\<open>update(16)\<close>, \<^verbatim>\<open>update(33)\<close> set \<^verbatim>\<open>elapsed\<close> to 0, 16 and 17: each
  is the new \<^verbatim>\<open>now\<close> minus the \<^verbatim>\<open>now\<close> of the call before, whatever the wall clock
  reads and whatever the state of the game.
\<close>

theorem update_elapsed_scenario:
  "\<exists>t1 t2 t3.
     update ops g1 d1 (Num 0) (boot ops b1 b2 (Phaser_Time ops h r)) = Some t1
   \<and> update ops g2 d2 (Num 16) t1 = Some t2
   \<and> update ops g3 d3 (Num 33) t2 = Some t3
   \<and> now (boot ops b1 b2 (Phaser_Time ops h r)) = Num 0
   \<and> prevTime t1 = Num 0 \<and> now t1 = Num 0 \<and> elapsed t1 = js_sub (now t1) (prevTime t1)
   \<and> prevTime t2 = Num 0 \<and> now t2 = Num 16 \<and> elapsed t2 = js_sub (now t2) (prevTime t2)
   \<and> prevTime t3 = Num 16 \<and> now t3 = Num 33 \<and> elapsed t3 = js_sub (now t3) (prevTime t3)
   \<and> [elapsed t1, elapsed t2, elapsed t3] = [Num 0, Num 16, Num 17]"
proof -
  have "now (boot ops b1 b2 (Phaser_Time ops h r)) = Num 0"
    by (simp add: boot_def Phaser_Time_def Let_def invoke_def)
  then show ?thesis
    by (simp add: update_eq update_clock_fields update_timers_fields js_sub_def)
qed

text \<open>
  Claim C9. \<^verbatim>\<open>refresh()\<close> changes \<^verbatim>\<open>time\<close> and \<^verbatim>\<open>elapsedMS\<close> and no other field:
  \<^verbatim>\<open>time\<close> becomes the sample of the wall clock and \<^verbatim>\<open>elapsedMS\<close> the sample minus
  the old \<^verbatim>\<open>time\<close>; \<^verbatim>\<open>now\<close> and \<^verbatim>\<open>elapsed\<close> stay. After a second \<^verbatim>\<open>refresh()\<close> that
  reads the same sample, \<^verbatim>\<open>elapsedMS\<close> is 0.
\<close>

theorem refresh_wall_time_only:
  "refresh d t = t\<lparr>time := time (refresh d t), elapsedMS := elapsedMS (refresh d t)\<rparr>
   \<and> time (refresh d t) = Num d
   \<and> elapsedMS (refresh d t) = js_sub (Num d) (time t)
   \<and> now (refresh d t) = now t \<and> elapsed (refresh d t) = elapsed t
   \<and> elapsedMS (refresh d (refresh d t)) = Num 0"
  by (simp add: refresh_def Let_def js_sub_def)

section \<open>Operations that keep a field\<close>

lemma removeAll_loop_eq:
  "i \<le> length (priv_timers t) \<Longrightarrow>
   removeAll_loop ops i t = Some (invoke_all (Timer_destroy ops) Destroy (drop i (priv_timers t)) t)"
proof (induction ops i t rule: removeAll_loop.induct)
  case (1 ops i t)
  show ?case
  proof (cases "i < length (priv_timers t)")
    case False
    with 1(2) show ?thesis by (subst removeAll_loop.simps) simp
  next
    case True
    let ?a = "priv_timers t ! i"
    have get: "Array_get (priv_timers t) i = Some ?a"
      using True by (simp add: Array_get_def)
    have "removeAll_loop ops i t
        = removeAll_loop ops (i + 1) (invoke (Timer_destroy ops) (Destroy ?a) ?a t)"
      using True get by (subst removeAll_loop.simps) simp
    also have "\<dots> = Some (invoke_all (Timer_destroy ops) Destroy (drop (i + 1) (priv_timers t))
                          (invoke (Timer_destroy ops) (Destroy ?a) ?a t))"
      using True 1(1)[OF True get] by simp
    also have "\<dots> = Some (invoke_all (Timer_destroy ops) Destroy (drop i (priv_timers t)) t)"
      using True by (simp add: Cons_nth_drop_Suc[symmetric])
    finally show ?thesis .
  qed
qed

lemma removeAll_eq:
  "removeAll ops t =
     Some (invoke (Timer_removeAll ops) (RemoveAll (events t)) (events t)
            ((invoke_all (Timer_destroy ops) Destroy (priv_timers t) t)\<lparr>priv_timers := []\<rparr>))"
  by (simp add: removeAll_def removeAll_loop_eq invoke_all_eq)

lemmas operation_defs =
  boot_def add_def create_def removeAll_eq refresh_def update_eq update_clock_fields
  update_timers_fields countUpdate_def countRender_def gamePaused_eq gameResumed_eq
  reset_def set_desiredFps_def Let_def invoke_all_eq invoke_def

text \<open>Only the setter of \<^verbatim>\<open>desiredFps\<close> writes the two fields of the physics step.\<close>

lemma perform_physicsElapsed:
  "\<exists>t'. perform ops op t = Some t' \<and>
     (case op of
        Op_set_desiredFps v \<Rightarrow>
          physicsElapsed t' = js_div (Num 1) v
          \<and> physicsElapsedMS t' = js_mul (js_div (Num 1) v) (Num 1000)
      | _ \<Rightarrow> physicsElapsed t' = physicsElapsed t \<and> physicsElapsedMS t' = physicsElapsedMS t)"
  by (cases op) (simp_all add: operation_defs)

lemma js_div_one_positive: "js_gt v (Num 0) \<Longrightarrow> \<exists>p. js_div (Num 1) v = Num p"
  by (cases v) (auto simp: js_gt_def)

lemma perform_fixed_step:
  assumes "sets_positive_rate op"
    and "physicsElapsedMS t = js_mul (physicsElapsed t) (Num 1000)" and "physicsElapsed t = Num p"
  shows "\<exists>t' p'. perform ops op t = Some t'
     \<and> physicsElapsedMS t' = js_mul (physicsElapsed t') (Num 1000) \<and> physicsElapsed t' = Num p'"
proof -
  obtain t' where t': "perform ops op t = Some t'"
    and c: "case op of
        Op_set_desiredFps v \<Rightarrow>
          physicsElapsed t' = js_div (Num 1) v
          \<and> physicsElapsedMS t' = js_mul (js_div (Num 1) v) (Num 1000)
      | _ \<Rightarrow> physicsElapsed t' = physicsElapsed t \<and> physicsElapsedMS t' = physicsElapsedMS t"
    using perform_physicsElapsed [of ops op t] by blast
  show ?thesis
  proof (cases "\<exists>v. op = Op_set_desiredFps v")
    case True
    then obtain v where v: "op = Op_set_desiredFps v" by blast
    with assms(1) obtain p' where "js_div (Num 1) v = Num p'"
      using js_div_one_positive [of v] by auto
    with c v t' show ?thesis by simp
  next
    case False
    with c have "physicsElapsed t' = physicsElapsed t \<and> physicsElapsedMS t' = physicsElapsedMS t"
      by (cases op) simp_all
    with assms t' show ?thesis by simp
  qed
qed

lemma perform_all_fixed_step:
  "list_all sets_positive_rate os \<Longrightarrow>
   physicsElapsedMS t = js_mul (physicsElapsed t) (Num 1000) \<Longrightarrow> physicsElapsed t = Num p \<Longrightarrow>
   \<exists>t' p'. perform_all ops os t = Some t'
     \<and> physicsElapsedMS t' = js_mul (physicsElapsed t') (Num 1000) \<and> physicsElapsed t' = Num p'"
proof (induction os arbitrary: t p)
  case Nil
  then show ?case by simp
next
  case (Cons op os)
  from Cons.prems obtain t1 p1 where 1: "perform ops op t = Some t1"
    "physicsElapsedMS t1 = js_mul (physicsElapsed t1) (Num 1000)" "physicsElapsed t1 = Num p1"
    using perform_fixed_step [of op t p ops] by auto
  from Cons.prems have "list_all sets_positive_rate os" by simp
  from Cons.IH [OF this 1(2,3)] 1(1) show ?case by simp
qed

text \<open>
  Claim C3. Assigning a positive \<open>r\<close> to \<^verbatim>\<open>desiredFps\<close> sets \<^verbatim>\<open>physicsElapsed\<close> to
  \<open>1 / r\<close>, \<^verbatim>\<open>physicsElapsedMS\<close> to \<open>(1 / r) * 1000\<close> and \<^verbatim>\<open>desiredFpsMult\<close> to \<open>1 / r\<close>,
  and \<^verbatim>\<open>desiredFps\<close> then reads \<open>r\<close>. No other operation writes these fields:
  \<^verbatim>\<open>physicsElapsedMS == physicsElapsed * 1000\<close> holds on the clock as built, and after
  every sequence of operations in which the rates assigned are positive; every such
  sequence runs to its end.
\<close>

theorem desiredFps_fixed_step:
  assumes "0 < r" and "list_all sets_positive_rate os"
  shows "desiredFps (set_desiredFps (Num r) t) = Num r
       \<and> physicsElapsed (set_desiredFps (Num r) t) = Num (1 / r)
       \<and> physicsElapsedMS (set_desiredFps (Num r) t) = Num ((1 / r) * 1000)
       \<and> desiredFpsMult (set_desiredFps (Num r) t) = Num (1 / r)
       \<and> js_eq (physicsElapsedMS (Phaser_Time ops h a))
               (js_mul (physicsElapsed (Phaser_Time ops h a)) (Num 1000))
       \<and> (\<exists>t'. perform_all ops os (Phaser_Time ops h a) = Some t'
             \<and> js_eq (physicsElapsedMS t') (js_mul (physicsElapsed t') (Num 1000)))"
proof -
  have built: "physicsElapsedMS (Phaser_Time ops h a)
      = js_mul (physicsElapsed (Phaser_Time ops h a)) (Num 1000)"
    "physicsElapsed (Phaser_Time ops h a) = Num (1 / 60)"
    by (simp_all add: Phaser_Time_def)
  from perform_all_fixed_step [OF assms(2) built]
  obtain t' p' where "perform_all ops os (Phaser_Time ops h a) = Some t'"
    "physicsElapsedMS t' = js_mul (physicsElapsed t') (Num 1000)" "physicsElapsed t' = Num p'"
    by blast
  then have "\<exists>t'. perform_all ops os (Phaser_Time ops h a) = Some t'
             \<and> js_eq (physicsElapsedMS t') (js_mul (physicsElapsed t') (Num 1000))"
    by (auto simp: js_eq_def)
  moreover have "js_eq (physicsElapsedMS (Phaser_Time ops h a))
               (js_mul (physicsElapsed (Phaser_Time ops h a)) (Num 1000))"
    by (simp add: Phaser_Time_def js_eq_def)
  moreover from assms(1) have "desiredFps (set_desiredFps (Num r) t) = Num r
       \<and> physicsElapsed (set_desiredFps (Num r) t) = Num (1 / r)
       \<and> physicsElapsedMS (set_desiredFps (Num r) t) = Num ((1 / r) * 1000)
       \<and> desiredFpsMult (set_desiredFps (Num r) t) = Num (1 / r)"
    by (simp add: set_desiredFps_def desiredFps_def Let_def)
  ultimately show ?thesis by blast
qed

theorem desiredFps_fixed_step_witness:
  "(0 :: real) < 30
   \<and> list_all sets_positive_rate [Op_boot 1000 1000, Op_set_desiredFps (Num 30), Op_update running 1016 (Num 16)]
   \<and> physicsElapsedMS (set_desiredFps (Num 30) pool_of_three) = Num (100 / 3)
   \<and> (\<exists>t'. perform_all countdown
               [Op_boot 1000 1000, Op_set_desiredFps (Num 30), Op_update running 1016 (Num 16)]
               (Phaser_Time countdown three_updates_left 0) = Some t'
         \<and> js_eq (physicsElapsedMS t') (js_mul (physicsElapsed t') (Num 1000)))"
  using desiredFps_fixed_step [of 30
    "[Op_boot 1000 1000, Op_set_desiredFps (Num 30), Op_update running 1016 (Num 16)]"
    pool_of_three countdown three_updates_left 0]
  by (simp add: js_gt_def)

text \<open>Only \<^verbatim>\<open>gamePaused()\<close> writes \<^verbatim>\<open>_pauseStarted\<close>.\<close>

lemma perform_pauseStarted:
  "\<not> is_gamePaused op \<Longrightarrow>
   \<exists>t'. perform ops op t = Some t' \<and> priv_pauseStarted t' = priv_pauseStarted t"
  by (cases op) (simp_all add: operation_defs)

lemma perform_all_pauseStarted:
  "list_all (\<lambda>op. \<not> is_gamePaused op) os \<Longrightarrow>
   \<exists>t'. perform_all ops os t = Some t' \<and> priv_pauseStarted t' = priv_pauseStarted t"
proof (induction os arbitrary: t)
  case Nil
  then show ?case by simp
next
  case (Cons op os)
  then obtain t1 where 1: "perform ops op t = Some t1" "priv_pauseStarted t1 = priv_pauseStarted t"
    using perform_pauseStarted [of op ops t] by auto
  from Cons.prems have "list_all (\<lambda>op. \<not> is_gamePaused op) os" by simp
  from Cons.IH [OF this, of t1] 1 show ?case by simp
qed

text \<open>
  Claim C10. On a clock that was built and then went through any operations other than
  \<^verbatim>\<open>gamePaused()\<close>, the field \<^verbatim>\<open>_pauseStarted\<close> is still the 0 of the constructor, and
  \<^verbatim>\<open>gameResumed()\<close> sets \<^verbatim>\<open>pauseDuration\<close> to \<^verbatim>\<open>time - _pauseStarted\<close>, which is the
  whole sample \<open>d\<close> of the wall clock it has just read: nothing in the method tests
  whether the game was paused.
\<close>

theorem gameResumed_without_pause:
  assumes "list_all (\<lambda>op. \<not> is_gamePaused op) os"
  shows "\<exists>t t'. perform_all ops os (Phaser_Time ops h a) = Some t
       \<and> priv_pauseStarted t = Num 0
       \<and> gameResumed ops d t = Some t'
       \<and> time t' = Num d
       \<and> pauseDuration t' = js_sub (time t') (priv_pauseStarted t)
       \<and> pauseDuration t' = Num d"
proof -
  from perform_all_pauseStarted [OF assms, of ops "Phaser_Time ops h a"]
  obtain t where t: "perform_all ops os (Phaser_Time ops h a) = Some t"
    "priv_pauseStarted t = Num 0"
    by (auto simp: Phaser_Time_def)
  then show ?thesis
    by (simp add: gameResumed_eq invoke_all_eq invoke_def js_sub_def)
qed

theorem gameResumed_without_pause_witness:
  "list_all (\<lambda>op. \<not> is_gamePaused op) [Op_boot 1000 1000, Op_update running 1016 (Num 16)]
   \<and> (\<exists>t t'. perform_all countdown [Op_boot 1000 1000, Op_update running 1016 (Num 16)]
                (Phaser_Time countdown three_updates_left 0) = Some t
         \<and> gameResumed countdown 1700000000000 t = Some t'
         \<and> pauseDuration t' = Num 1700000000000)"
  using gameResumed_without_pause
    [of "[Op_boot 1000 1000, Op_update running 1016 (Num 16)]" countdown three_updates_left 0
        1700000000000]
  by auto

text \<open>
  Claim C7. An \<^verbatim>\<open>update(now)\<close> while \<^verbatim>\<open>game.paused\<close> is set makes no call on any timer:
  the trace of calls, the state of every timer (the master timer among them) and the
  pool are as before. Every other field is what the same \<^verbatim>\<open>update(now)\<close> on a game that
  is not paused computes: the two results differ in nothing but the timers.
\<close>

theorem update_while_paused:
  assumes "paused g"
  shows "\<exists>t' t''. update ops g d x t = Some t'
       \<and> calls t' = calls t \<and> heap t' = heap t
       \<and> priv_timers t' = priv_timers t \<and> events t' = events t
       \<and> update ops (g\<lparr>paused := False\<rparr>) d x t = Some t''
       \<and> t''\<lparr>priv_timers := priv_timers t, heap := heap t, calls := calls t\<rparr> = t'"
  using assms
  by (simp add: update_eq update_clock_fields)
     (simp add: update_timers_def update_clock_def Let_def)

theorem update_while_paused_witness:
  "paused game_paused
   \<and> (\<exists>t' t''. update countdown game_paused 1016 (Num 16) pool_of_three = Some t'
         \<and> calls t' = [New 0 False, Start 0] \<and> priv_timers t' = [1, 2, 3]
         \<and> heap t' 2 = 3 \<and> now t' = Num 16 \<and> elapsed t' = Num 16 \<and> time t' = Num 1016
         \<and> update countdown (game_paused\<lparr>paused := False\<rparr>) 1016 (Num 16) pool_of_three = Some t''
         \<and> t''\<lparr>priv_timers := priv_timers pool_of_three, heap := heap pool_of_three,
                calls := calls pool_of_three\<rparr> = t')"
proof -
  have p: "paused game_paused" by (simp add: game_paused_def)
  from update_while_paused [OF p, of countdown 1016 "Num 16" pool_of_three]
  obtain t' t'' where 1: "update countdown game_paused 1016 (Num 16) pool_of_three = Some t'"
    "calls t' = calls pool_of_three" "heap t' = heap pool_of_three"
    "priv_timers t' = priv_timers pool_of_three"
    "update countdown (game_paused\<lparr>paused := False\<rparr>) 1016 (Num 16) pool_of_three = Some t''"
    "t''\<lparr>priv_timers := priv_timers pool_of_three, heap := heap pool_of_three,
         calls := calls pool_of_three\<rparr> = t'"
    by blast
  from 1(1) have "now t' = Num 16" "elapsed t' = Num 16" "time t' = Num 1016"
    by (auto simp: update_eq update_clock_fields p pool_of_three_fields js_sub_def)
  with p 1 show ?thesis
    by (simp add: pool_of_three_fields three_updates_left_def)
qed

text \<open>
  Claim C8. While \<^verbatim>\<open>advancedTiming\<close> is false, \<^verbatim>\<open>update()\<close> leaves every field of the
  statistics as it was, and \<^verbatim>\<open>countUpdate()\<close> and \<^verbatim>\<open>countRender()\<close> change nothing at all.
\<close>

theorem statistics_frozen:
  assumes "\<not> advancedTiming t"
  shows "\<exists>t'. update ops g d x t = Some t'
       \<and> frames t' = frames t \<and> updates t' = updates t \<and> renders t' = renders t
       \<and> fps t' = fps t \<and> ups t' = ups t \<and> rps t' = rps t
       \<and> fpsMin t' = fpsMin t \<and> fpsMax t' = fpsMax t
       \<and> msMin t' = msMin t \<and> msMax t' = msMax t
       \<and> suggestedFps t' = suggestedFps t
       \<and> priv_frameCount t' = priv_frameCount t
       \<and> priv_elapsedAccumulator t' = priv_elapsedAccumulator t
       \<and> priv_timeLastSecond t' = priv_timeLastSecond t
       \<and> advancedTiming t' = advancedTiming t
       \<and> countUpdate t = t \<and> countRender t = t"
  using assms
  by (simp add: update_eq update_clock_def update_timers_def Let_def countUpdate_def countRender_def)

theorem statistics_frozen_witness:
  "\<not> advancedTiming pool_of_three
   \<and> (\<exists>t'. update countdown running 3000 (Num 2000) pool_of_three = Some t'
         \<and> frames t' = frames pool_of_three \<and> fps t' = fps pool_of_three
         \<and> msMax t' = msMax pool_of_three \<and> suggestedFps t' = suggestedFps pool_of_three
         \<and> priv_frameCount t' = priv_frameCount pool_of_three)
   \<and> countUpdate pool_of_three = pool_of_three \<and> countRender pool_of_three = pool_of_three"
  using statistics_frozen [of pool_of_three countdown running 3000 "Num 2000"]
  by (auto simp: pool_of_three_fields)

section \<open>Pruning the pool\<close>

lemma sweep_cong_heap:
  "(\<And>a. a \<in> set as \<Longrightarrow> h a = h' a) \<Longrightarrow>
   fst (sweep ops w as h) = fst (sweep ops w as h')
   \<and> (\<forall>a \<in> set as. snd (sweep ops w as h) a = snd (sweep ops w as h') a)"
proof (induction as arbitrary: h h')
  case Nil
  show ?case by simp
next
  case (Cons a as)
  have a: "h a = h' a" using Cons.prems by simp
  have "fst (sweep ops w as (h(a := snd (Timer_update ops w (h' a)))))
      = fst (sweep ops w as (h'(a := snd (Timer_update ops w (h' a)))))
    \<and> (\<forall>b \<in> set as. snd (sweep ops w as (h(a := snd (Timer_update ops w (h' a))))) b
         = snd (sweep ops w as (h'(a := snd (Timer_update ops w (h' a))))) b)"
    by (rule Cons.IH) (simp add: Cons.prems)
  moreover have "a \<notin> set as \<Longrightarrow>
      snd (sweep ops w as (h(a := snd (Timer_update ops w (h' a))))) a
    = snd (sweep ops w as (h'(a := snd (Timer_update ops w (h' a))))) a"
    by (simp add: sweep_heap_notin)
  ultimately show ?case using a by (auto simp: Let_def)
qed

text \<open>
  Claim C4. An \<^verbatim>\<open>update\<close> on a game that is not paused calls \<^verbatim>\<open>update(this.time)\<close> on the
  master timer and then once on each timer of the pool, in the order of the pool, all
  with the wall time of this frame. The pool it leaves is what one pass over the old
  pool keeps (\<open>sweep\<close>: a timer stays when its call returns true), a subsequence of
  the pool it found. When the pool holds distinct timers and not the master timer, it
  holds exactly the timers whose \<^verbatim>\<open>update\<close> returned true, in their old order,
  and every timer of the old pool, kept or not, has the state its one call gave it.
\<close>

theorem update_prunes_timers:
  assumes "\<not> paused g"
  shows "\<exists>t'. update ops g d x t = Some t'
       \<and> time t' = Num d \<and> events t' = events t
       \<and> calls t' = calls t @ Update (events t) (Num d) # map (\<lambda>a. Update a (Num d)) (priv_timers t)
       \<and> priv_timers t' =
           fst (sweep ops (Num d) (priv_timers t)
                  ((heap t)(events t := snd (Timer_update ops (Num d) (heap t (events t))))))
       \<and> subseq (priv_timers t') (priv_timers t)
       \<and> (distinct (priv_timers t) \<and> events t \<notin> set (priv_timers t) \<longrightarrow>
            priv_timers t' = filter (\<lambda>a. fst (Timer_update ops (Num d) (heap t a))) (priv_timers t)
          \<and> (\<forall>a \<in> set (priv_timers t). heap t' a = snd (Timer_update ops (Num d) (heap t a))))"
proof -
  let ?c = "update_clock g d x t"
  let ?h = "(heap t)(events t := snd (Timer_update ops (Num d) (heap t (events t))))"
  have u: "update ops g d x t = Some (update_timers ops ?c)"
    using assms by (simp add: update_eq)
  have pool: "priv_timers (update_timers ops ?c) = fst (sweep ops (Num d) (priv_timers t) ?h)"
    and hp: "heap (update_timers ops ?c) = snd (sweep ops (Num d) (priv_timers t) ?h)"
    and cl: "calls (update_timers ops ?c)
      = calls t @ Update (events t) (Num d) # map (\<lambda>a. Update a (Num d)) (priv_timers t)"
    by (simp_all add: update_timers_def update_clock_fields Let_def)
  have sub: "subseq (priv_timers (update_timers ops ?c)) (priv_timers t)"
    by (simp add: pool sweep_subseq)
  have dist: "priv_timers (update_timers ops ?c)
        = filter (\<lambda>a. fst (Timer_update ops (Num d) (heap t a))) (priv_timers t)
      \<and> (\<forall>a \<in> set (priv_timers t).
           heap (update_timers ops ?c) a = snd (Timer_update ops (Num d) (heap t a)))"
    if d: "distinct (priv_timers t)" and e: "events t \<notin> set (priv_timers t)"
  proof -
    have same: "\<And>a. a \<in> set (priv_timers t) \<Longrightarrow> ?h a = heap t a"
      using e by auto
    have "fst (sweep ops (Num d) (priv_timers t) ?h) = fst (sweep ops (Num d) (priv_timers t) (heap t))"
      and "\<forall>a \<in> set (priv_timers t). snd (sweep ops (Num d) (priv_timers t) ?h) a
             = snd (sweep ops (Num d) (priv_timers t) (heap t)) a"
      using sweep_cong_heap [of "priv_timers t" ?h "heap t" ops "Num d", OF same] by blast+
    then show ?thesis
      using d by (simp add: pool hp sweep_distinct sweep_heap_in)
  qed
  have "time (update_timers ops ?c) = Num d" "events (update_timers ops ?c) = events t"
    by (simp_all add: update_timers_fields update_clock_fields)
  with u sub dist cl pool show ?thesis by blast
qed

text \<open>
  The scenario of the claim: three timers in the pool, the second of which has three
  updates left. The first two frames keep the pool; the third removes the second timer
  and keeps the first and the third, in this order, after one call on each of the three.
\<close>

theorem update_prunes_timers_witness:
  "\<not> paused running \<and> distinct (priv_timers pool_of_three)
   \<and> events pool_of_three \<notin> set (priv_timers pool_of_three)
   \<and> (\<exists>t1 t2 t3. update countdown running 1016 (Num 16) pool_of_three = Some t1
         \<and> update countdown running 1033 (Num 33) t1 = Some t2
         \<and> update countdown running 1050 (Num 50) t2 = Some t3
         \<and> priv_timers t1 = [1, 2, 3] \<and> priv_timers t2 = [1, 2, 3] \<and> priv_timers t3 = [1, 3]
         \<and> drop (length (calls t2)) (calls t3)
             = [Update 0 (Num 1050), Update 1 (Num 1050), Update 2 (Num 1050), Update 3 (Num 1050)])"
proof -
  have r: "\<not> paused running" by (simp add: running_def)
  have upd: "Timer_update countdown = (\<lambda>w n. (1 < n, n - 1))" by (simp add: countdown_def)
  from update_prunes_timers [OF r, of countdown 1016 "Num 16" pool_of_three]
  obtain t1 where t1: "update countdown running 1016 (Num 16) pool_of_three = Some t1"
    and 1: "events t1 = 0" "priv_timers t1 = [1, 2, 3]"
      "heap t1 (Suc 0) = 8" "heap t1 2 = 2" "heap t1 3 = 8"
    by (auto simp: pool_of_three_fields three_updates_left_def upd)
  from update_prunes_timers [OF r, of countdown 1033 "Num 33" t1]
  obtain t2 where t2: "update countdown running 1033 (Num 33) t1 = Some t2"
    and 2: "events t2 = 0" "priv_timers t2 = [1, 2, 3]"
      "heap t2 (Suc 0) = 7" "heap t2 2 = 1" "heap t2 3 = 7"
    by (auto simp: 1 upd)
  from update_prunes_timers [OF r, of countdown 1050 "Num 50" t2]
  obtain t3 where t3: "update countdown running 1050 (Num 50) t2 = Some t3"
    and 3: "priv_timers t3 = [1, 3]"
      "calls t3 = calls t2 @ [Update 0 (Num 1050), Update 1 (Num 1050), Update 2 (Num 1050), Update 3 (Num 1050)]"
    by (auto simp: 2 upd)
  from r t1 t2 t3 1 2 3 show ?thesis
    by (simp add: pool_of_three_fields)
qed

section \<open>The suggested rate\<close>

lemma perform_all_append:
  "perform_all ops (as @ bs) t =
     (case perform_all ops as t of None \<Rightarrow> None | Some t' \<Rightarrow> perform_all ops bs t')"
  by (induction as arbitrary: t) (simp_all split: option.splits)

lemma steady_frames_Suc:
  "steady_frames gs ds x0 E (Suc m) =
     steady_frames gs ds x0 E m @ [Op_update (gs m) (ds m) (Num (x0 + real (Suc m) * E))]"
  by (simp add: steady_frames_def)

text \<open>The sample counter, the accumulator and the suggested rate after one statistics step.\<close>

lemma updateAdvancedTiming_sample:
  "priv_frameCount (updateAdvancedTiming t) =
     (if js_ge (js_add (priv_frameCount t) (Num 1)) (js_mul (priv_desiredFps t) (Num 2))
      then Num 0 else js_add (priv_frameCount t) (Num 1))"
  "priv_elapsedAccumulator (updateAdvancedTiming t) =
     (if js_ge (js_add (priv_frameCount t) (Num 1)) (js_mul (priv_desiredFps t) (Num 2))
      then Num 0 else js_add (priv_elapsedAccumulator t) (elapsed t))"
  "suggestedFps (updateAdvancedTiming t) =
     (if js_ge (js_add (priv_frameCount t) (Num 1)) (js_mul (priv_desiredFps t) (Num 2))
      then js_mul (Math_floor (js_div (Num 200)
             (js_div (js_add (priv_elapsedAccumulator t) (elapsed t))
                     (js_add (priv_frameCount t) (Num 1))))) (Num 5)
      else suggestedFps t)"
  by (simp_all add: updateAdvancedTiming_def Let_def)

lemma update_clock_sample:
  assumes "advancedTiming t"
  shows "priv_frameCount (update_clock g d x t) =
     (if js_ge (js_add (priv_frameCount t) (Num 1)) (js_mul (priv_desiredFps t) (Num 2))
      then Num 0 else js_add (priv_frameCount t) (Num 1))"
  and "priv_elapsedAccumulator (update_clock g d x t) =
     (if js_ge (js_add (priv_frameCount t) (Num 1)) (js_mul (priv_desiredFps t) (Num 2))
      then Num 0 else js_add (priv_elapsedAccumulator t) (js_sub x (now t)))"
  and "suggestedFps (update_clock g d x t) =
     (if js_ge (js_add (priv_frameCount t) (Num 1)) (js_mul (priv_desiredFps t) (Num 2))
      then js_mul (Math_floor (js_div (Num 200)
             (js_div (js_add (priv_elapsedAccumulator t) (js_sub x (now t)))
                     (js_add (priv_frameCount t) (Num 1))))) (Num 5)
      else suggestedFps t)"
  using assms
  by (simp_all add: update_clock_def Let_def updateAdvancedTiming_sample)

text \<open>One frame of the statistics, on finite numbers.\<close>

lemma update_statistics_step:
  assumes "advancedTiming t" and "priv_frameCount t = Num k"
    and "priv_elapsedAccumulator t = Num s" and "now t = Num x" and "priv_desiredFps t = Num f"
  shows "\<exists>t'. update ops g d (Num y) t = Some t'
     \<and> advancedTiming t' \<and> now t' = Num y \<and> elapsed t' = Num (y - x)
     \<and> priv_desiredFps t' = Num f
     \<and> priv_frameCount t' = (if f * 2 \<le> k + 1 then Num 0 else Num (k + 1))
     \<and> priv_elapsedAccumulator t' = (if f * 2 \<le> k + 1 then Num 0 else Num (s + (y - x)))
     \<and> suggestedFps t' =
         (if f * 2 \<le> k + 1
          then js_mul (Math_floor (js_div (Num 200) (js_div (Num (s + (y - x))) (Num (k + 1))))) (Num 5)
          else suggestedFps t)"
proof -
  let ?c = "update_clock g d (Num y) t"
  have ge: "js_ge (Num (k + 1)) (Num (f * 2)) = (f * 2 \<le> k + 1)"
    by (simp add: js_ge_def not_less)
  have 1: "advancedTiming ?c" "now ?c = Num y" "elapsed ?c = Num (y - x)" "priv_desiredFps ?c = Num f"
    using assms by (simp_all add: update_clock_fields js_sub_def)
  have 2: "priv_frameCount ?c = (if f * 2 \<le> k + 1 then Num 0 else Num (k + 1))"
    using assms by (simp add: update_clock_sample(1) [OF assms(1)] ge)
  have 3: "priv_elapsedAccumulator ?c = (if f * 2 \<le> k + 1 then Num 0 else Num (s + (y - x)))"
    using assms by (simp add: update_clock_sample(2) [OF assms(1)] ge js_sub_def)
  have 4: "suggestedFps ?c =
         (if f * 2 \<le> k + 1
          then js_mul (Math_floor (js_div (Num 200) (js_div (Num (s + (y - x))) (Num (k + 1))))) (Num 5)
          else suggestedFps t)"
    using assms by (simp add: update_clock_sample(3) [OF assms(1)] ge js_sub_def)
  show ?thesis
    using 1 2 3 4 by (simp add: update_eq update_timers_fields)
qed

lemma steady_frames_before:
  assumes "advancedTiming t" and "priv_frameCount t = Num 0"
    and "priv_elapsedAccumulator t = Num 0" and "now t = Num x0"
    and "priv_desiredFps t = Num f" and "real n = 2 * f"
  shows "m < n \<Longrightarrow>
     \<exists>tm. perform_all ops (steady_frames gs ds x0 E m) t = Some tm
       \<and> advancedTiming tm \<and> now tm = Num (x0 + real m * E)
       \<and> priv_desiredFps tm = Num f
       \<and> priv_frameCount tm = Num (real m)
       \<and> priv_elapsedAccumulator tm = Num (real m * E)
       \<and> suggestedFps tm = suggestedFps t"
proof (induction m)
  case 0
  with assms show ?case by (simp add: steady_frames_def)
next
  case (Suc m)
  then obtain tm where tm: "perform_all ops (steady_frames gs ds x0 E m) t = Some tm"
    "advancedTiming tm" "now tm = Num (x0 + real m * E)" "priv_desiredFps tm = Num f"
    "priv_frameCount tm = Num (real m)" "priv_elapsedAccumulator tm = Num (real m * E)"
    "suggestedFps tm = suggestedFps t"
    by auto
  have small: "\<not> f * 2 \<le> real m + 1"
    using Suc.prems assms(6) by linarith
  from update_statistics_step [OF tm(2,5,6,3,4), of ops "gs m" "ds m" "x0 + real (Suc m) * E"]
  obtain t' where "update ops (gs m) (ds m) (Num (x0 + real (Suc m) * E)) tm = Some t'"
    "advancedTiming t'" "now t' = Num (x0 + real (Suc m) * E)" "priv_desiredFps t' = Num f"
    "priv_frameCount t' = Num (real m + 1)"
    "priv_elapsedAccumulator t' = Num (real m * E + (x0 + real (Suc m) * E - (x0 + real m * E)))"
    "suggestedFps t' = suggestedFps tm"
    using small by auto
  with tm show ?case
    by (simp add: steady_frames_Suc perform_all_append algebra_simps)
qed

text \<open>
  Claim C6. Statistics are enabled, the sample counter and the accumulator are at zero,
  and \<^verbatim>\<open>desiredFps\<close> is \<open>f\<close> with \<open>2 * f\<close> a positive whole number \<open>n\<close>. Then \<open>n\<close> calls
  of \<^verbatim>\<open>update\<close> whose \<^verbatim>\<open>elapsed\<close> is each time \<open>E\<close> all return, and after the last one
  \<^verbatim>\<open>suggestedFps\<close> is \<open>Math.floor(200 / E) * 5\<close>, which is \<open>\<lfloor>200 / E\<rfloor> * 5\<close> when \<open>E\<close> is
  not zero, and the sample counter and the accumulator are back at zero. No call before
  the last recomputes \<^verbatim>\<open>suggestedFps\<close>: after \<open>m < n\<close> calls it has its old value, the
  counter is at \<open>m\<close> and the accumulator at \<open>m * E\<close>.
\<close>

theorem suggestedFps_recomputation:
  assumes "advancedTiming t" and "priv_frameCount t = Num 0"
    and "priv_elapsedAccumulator t = Num 0" and "now t = Num x0"
    and "desiredFps t = Num f" and "real n = 2 * f" and "0 < n"
  shows "\<exists>t'. perform_all ops (steady_frames gs ds x0 E n) t = Some t'
       \<and> elapsed t' = Num E
       \<and> suggestedFps t' = js_mul (Math_floor (js_div (Num 200) (Num E))) (Num 5)
       \<and> (E \<noteq> 0 \<longrightarrow> suggestedFps t' = Num (of_int (\<lfloor>200 / E\<rfloor> * 5)))
       \<and> priv_frameCount t' = Num 0 \<and> priv_elapsedAccumulator t' = Num 0
       \<and> (\<forall>m<n. \<exists>tm. perform_all ops (steady_frames gs ds x0 E m) t = Some tm
              \<and> suggestedFps tm = suggestedFps t
              \<and> priv_frameCount tm = Num (real m)
              \<and> priv_elapsedAccumulator tm = Num (real m * E))"
proof -
  have f: "priv_desiredFps t = Num f" using assms(5) by (simp add: desiredFps_def)
  note before = steady_frames_before [OF assms(1-4) f assms(6), of _ ops gs ds E]
  obtain m where n: "n = Suc m" using assms(7) by (cases n) auto
  then have "m < n" by simp
  from before [OF this]
  obtain tm where tm: "perform_all ops (steady_frames gs ds x0 E m) t = Some tm"
    "advancedTiming tm" "now tm = Num (x0 + real m * E)" "priv_desiredFps tm = Num f"
    "priv_frameCount tm = Num (real m)" "priv_elapsedAccumulator tm = Num (real m * E)"
    by auto
  have full: "f * 2 \<le> real m + 1"
    using assms(6) n by simp
  have el: "x0 + real (Suc m) * E - (x0 + real m * E) = E"
    by (simp add: algebra_simps)
  have avg: "(real m * E + E) / (real m + 1) = E"
  proof -
    have "real m * E + E = E * (real m + 1)" by (simp add: algebra_simps)
    moreover have "real m + 1 \<noteq> 0" by (simp add: add_nonneg_eq_0_iff)
    ultimately show ?thesis by simp
  qed
  have nz: "real m + 1 \<noteq> 0" by (simp add: add_nonneg_eq_0_iff)
  from update_statistics_step [OF tm(2,5,6,3,4), of ops "gs m" "ds m" "x0 + real (Suc m) * E"]
  obtain t' where raw: "update ops (gs m) (ds m) (Num (x0 + real (Suc m) * E)) tm = Some t'"
    "elapsed t' = Num (x0 + real (Suc m) * E - (x0 + real m * E))"
    "priv_frameCount t' = (if f * 2 \<le> real m + 1 then Num 0 else Num (real m + 1))"
    "priv_elapsedAccumulator t' =
       (if f * 2 \<le> real m + 1 then Num 0
        else Num (real m * E + (x0 + real (Suc m) * E - (x0 + real m * E))))"
    "suggestedFps t' =
       (if f * 2 \<le> real m + 1
        then js_mul (Math_floor (js_div (Num 200)
               (js_div (Num (real m * E + (x0 + real (Suc m) * E - (x0 + real m * E))))
                       (Num (real m + 1))))) (Num 5)
        else suggestedFps tm)"
    by blast
  have t': "update ops (gs m) (ds m) (Num (x0 + real (Suc m) * E)) tm = Some t'"
    "elapsed t' = Num E" "priv_frameCount t' = Num 0" "priv_elapsedAccumulator t' = Num 0"
    using raw(1-4) full unfolding el by simp_all
  have "js_div (Num (real m * E + E)) (Num (real m + 1)) = Num E"
    using nz avg by simp
  then have s1: "suggestedFps t' = js_mul (Math_floor (js_div (Num 200) (Num E))) (Num 5)"
    using raw(5) full unfolding el by simp
  have run: "perform_all ops (steady_frames gs ds x0 E n) t = Some t'"
    using tm(1) t'(1) by (simp add: n steady_frames_Suc perform_all_append)
  have s2: "E \<noteq> 0 \<Longrightarrow> suggestedFps t' = Num (of_int (\<lfloor>200 / E\<rfloor> * 5))"
    using s1 by simp
  have s3: "\<forall>m<n. \<exists>tm. perform_all ops (steady_frames gs ds x0 E m) t = Some tm
              \<and> suggestedFps tm = suggestedFps t
              \<and> priv_frameCount tm = Num (real m)
              \<and> priv_elapsedAccumulator tm = Num (real m * E)"
    using before by blast
  from run t'(2,3,4) s1 s2 s3 show ?thesis by blast
qed

theorem suggestedFps_recomputation_witness:
  "advancedTiming (pool_of_three\<lparr>advancedTiming := True\<rparr>)
   \<and> real (120 :: nat) = 2 * 60 \<and> (0 :: nat) < 120 \<and> (16 :: real) \<noteq> 0
   \<and> (\<exists>t'. perform_all countdown (steady_frames (\<lambda>k. running) (\<lambda>k. 1000 + 16 * real (Suc k)) 0 16 120)
               (pool_of_three\<lparr>advancedTiming := True\<rparr>) = Some t'
         \<and> elapsed t' = Num 16 \<and> suggestedFps t' = Num 60
         \<and> priv_frameCount t' = Num 0 \<and> priv_elapsedAccumulator t' = Num 0)"
proof -
  have "\<lfloor>200 / 16 :: real\<rfloor> = 12"
    by (simp add: floor_eq_iff)
  then show ?thesis
    using suggestedFps_recomputation
      [of "pool_of_three\<lparr>advancedTiming := True\<rparr>" 0 60 120 countdown
          "\<lambda>k. running" "\<lambda>k. 1000 + 16 * real (Suc k)" 16]
    by (auto simp: pool_of_three_fields desiredFps_def)
qed

end
